theory Spec2Isabelle
  imports Main
begin

section \<open>The ingestion notebook as a sequential program\<close>

text \<open>
  The development embeds \<^verbatim>\<open>ingestion.ipynb\<close>: four code cells, run top to bottom.
  Cell 1 reads four text files and assembles them into one frame, cell 2 checks the
  configuration, fetches one embedding per text from the remote service and stores the
  result as a new column, cell 3 only displays a count, and cell 4 pickles the frame.

  Exceptions are values of the type \<open>exn\<close>; a cell that raises stops the run. The remote
  service is a state machine supplied as a parameter, and everything the notebook does to
  the outside (service requests, retry messages, sleeps, the pickled file) is recorded in
  an explicit world. An embedding vector is a value of an arbitrary type \<open>'v\<close>: the
  notebook only stores it.
\<close>

subsection \<open>Exceptions\<close>

text \<open>
  Two kinds of exception occur. The ones of type \<open>exn\<close> end the run.
  \<open>EnvironmentError missing\<close> is the exception whose message lists the missing
  variables, and \<open>ValueError_length_mismatch n m\<close> is pandas' ``Length of values (n) does
  not match length of index (m)''.
\<close>

datatype exn =
    FileNotFoundError string
  | IsADirectoryError string
  | NotADirectoryError string
  | UnicodeDecodeError string
  | Exception string
  | EnvironmentError "string list"
  | ValueError string
  | ValueError_length_mismatch nat nat

text \<open>
  The ones of type \<open>caught\<close> arise inside the \<^verbatim>\<open>try\<close> block of the embedding
  client and never leave it. \<open>ServiceError msg\<close> is any exception raised by the call of
  the service itself, with the message \<open>msg\<close>; \<open>KeyError\<close> and \<open>IndexError\<close> come from
  reading the response. \<open>str_exn\<close> is Python's \<^verbatim>\<open>str(e)\<close> for them.
\<close>

datatype caught =
    ServiceError string
  | KeyError string
  | IndexError

fun str_exn :: "caught \<Rightarrow> string" where
  "str_exn (ServiceError msg) = msg"
| "str_exn (KeyError k) = [CHR 0x27] @ k @ [CHR 0x27]"
| "str_exn IndexError = ''list index out of range''"

subsection \<open>Cell 1: the corpus loader\<close>

text \<open>
  \<^verbatim>\<open>
  def read_file(file_path):
      with open(file_path, 'r', encoding='utf-8') as f:
          return f.readlines()
  \<close>
  The file system maps a path to what is there: a regular file whose bytes are the UTF-8
  encoding of a text, a regular file whose bytes are not valid UTF-8, or a directory.
  Paths are the relative paths the notebook uses.
\<close>

datatype entry = File string | Undecodable | Directory

type_synonym files = "string \<rightharpoonup> entry"

definition newline :: char where
  "newline = CHR 0x0A"

definition carriage_return :: char where
  "carriage_return = CHR 0x0D"

text \<open>
  The file is opened in text mode with the default \<^verbatim>\<open>newline=None\<close>: while
  reading, a carriage return followed by a line feed, and a carriage return alone, are
  both turned into one line feed.
\<close>

fun universal_newlines :: "string \<Rightarrow> string" where
  "universal_newlines [] = []"
| "universal_newlines [c] = (if c = carriage_return then [newline] else [c])"
| "universal_newlines (c # d # cs) =
     (if c = carriage_return
      then (if d = newline then newline # universal_newlines cs
            else newline # universal_newlines (d # cs))
      else c # universal_newlines (d # cs))"

text \<open>
  \<open>readlines\<close> cuts the translated text after every line feed and keeps the line feed
  at the end of its line; text after the last line feed is a final line without one.
\<close>

primrec readlines :: "string \<Rightarrow> string list" where
  "readlines [] = []"
| "readlines (c # cs) =
     (if c = newline then [c] # readlines cs
      else (case readlines cs of
              [] \<Rightarrow> [[c]]
            | l # ls \<Rightarrow> (c # l) # ls))"

definition read_file :: "files \<Rightarrow> string \<Rightarrow> exn + string list" where
  "read_file fs file_path =
     (case fs file_path of
        None \<Rightarrow> Inl (FileNotFoundError file_path)
      | Some Directory \<Rightarrow> Inl (IsADirectoryError file_path)
      | Some Undecodable \<Rightarrow> Inl (UnicodeDecodeError file_path)
      | Some (File content) \<Rightarrow> Inr (readlines (universal_newlines content)))"

subsection \<open>Cell 1: frames and the assembler\<close>

text \<open>
  A frame cell holds a value or pandas' missing-value marker. A row of the assembled
  frame has the columns \<^verbatim>\<open>type\<close> and \<^verbatim>\<open>text\<close>; the finished dataset adds
  \<^verbatim>\<open>openaiEmbeddings\<close>. A frame is the list of its rows in index order: after
  \<^verbatim>\<open>reset_index(drop=True)\<close> the index of a row is its position, which is all
  the notebook uses.
\<close>

datatype 'a cell = NaN | Val 'a

record row =
  type :: "string cell"
  "text" :: "string cell"

record 'v erow = row +
  openaiEmbeddings :: "'v"

type_synonym frame = "row list"

type_synonym 'v dataset = "'v erow list"

text \<open>
  \<^verbatim>\<open>pd.DataFrame({'type': label, 'text': lines})\<close>: the scalar label is repeated
  for every line.
\<close>

definition DataFrame :: "string \<Rightarrow> string list \<Rightarrow> frame" where
  "DataFrame label lines = map (\<lambda>l. \<lparr>type = Val label, text = Val l\<rparr>) lines"

text \<open>\<^verbatim>\<open>pd.concat\<close> stacks the frames in list order and refuses an empty list.\<close>

definition pd_concat :: "frame list \<Rightarrow> exn + frame" where
  "pd_concat objs =
     (if objs = [] then Inl (ValueError ''No objects to concatenate'')
      else Inr (concat objs))"

definition reset_index :: "frame \<Rightarrow> frame" where
  "reset_index df = df"

definition df_combined ::
  "string list \<Rightarrow> string list \<Rightarrow> string list \<Rightarrow> string list \<Rightarrow> exn + frame" where
  "df_combined goats_lines gravity_lines blackholes_lines invasivegoats_lines =
     (let df_goats = DataFrame ''goats'' goats_lines;
          df_gravity = DataFrame ''gravity'' gravity_lines;
          df_blackholes = DataFrame ''blackholes'' blackholes_lines;
          df_invasivegoats = DataFrame ''invasivegoats'' invasivegoats_lines
      in case pd_concat [df_goats, df_gravity, df_blackholes, df_invasivegoats] of
           Inl e \<Rightarrow> Inl e
         | Inr df \<Rightarrow> Inr (reset_index df))"

definition load_text :: "files \<Rightarrow> exn + frame" where
  "load_text fs =
     (case read_file fs ''docs/goats.txt'' of
        Inl e \<Rightarrow> Inl e
      | Inr goats_lines \<Rightarrow>
     (case read_file fs ''docs/gravity.txt'' of
        Inl e \<Rightarrow> Inl e
      | Inr gravity_lines \<Rightarrow>
     (case read_file fs ''docs/blackholes.txt'' of
        Inl e \<Rightarrow> Inl e
      | Inr blackholes_lines \<Rightarrow>
     (case read_file fs ''docs/invasivegoats.txt'' of
        Inl e \<Rightarrow> Inl e
      | Inr invasivegoats_lines \<Rightarrow>
          df_combined goats_lines gravity_lines blackholes_lines invasivegoats_lines))))"

subsection \<open>Cell 2: configuration\<close>

text \<open>
  \<^verbatim>\<open>
  if not load_dotenv('.env',override=True):
      raise Exception("Couldn't load .env file")
  envVars = ['OPENAI_API_KEY']
  missing = []
  for var in envVars:
      if var not in os.environ:
          missing.append(var)
  if missing:
      raise EnvironmentError(f'These environment variables are missing: {missing}')
  \<close>
  \<open>load_dotenv\<close> receives the bindings of the \<^verbatim>\<open>.env\<close> file in file order, as
  python-dotenv parses them, with variable references already expanded (none when the
  file is missing or empty; a key without a value is bound to \<open>None\<close>). python-dotenv
  collects them into a dictionary, so of several bindings of one key the last counts.
  It reports failure when the dictionary is empty, and otherwise writes every key whose
  binding has a value into the process environment, overriding what is there.
\<close>

type_synonym environ = "string \<rightharpoonup> string"

fun set_as_environment_variables :: "(string \<times> string option) list \<Rightarrow> environ \<Rightarrow> environ" where
  "set_as_environment_variables [] env = env"
| "set_as_environment_variables ((k, v) # rest) env =
     (if k \<in> fst ` set rest then set_as_environment_variables rest env
      else set_as_environment_variables rest
             (case v of None \<Rightarrow> env | Some x \<Rightarrow> env(k \<mapsto> x)))"

definition load_dotenv :: "(string \<times> string option) list \<Rightarrow> environ \<Rightarrow> bool \<times> environ" where
  "load_dotenv dotenv env =
     (if dotenv = [] then (False, env)
      else (True, set_as_environment_variables dotenv env))"

definition envVars :: "string list" where
  "envVars = [''OPENAI_API_KEY'']"

definition missing_vars :: "environ \<Rightarrow> string list" where
  "missing_vars env = filter (\<lambda>var. env var = None) envVars"

definition check_config :: "(string \<times> string option) list \<Rightarrow> environ \<Rightarrow> exn + environ" where
  "check_config dotenv env =
     (case load_dotenv dotenv env of
        (ok, env') \<Rightarrow>
          if \<not> ok then Inl (Exception ''Couldn't load .env file'')
          else if missing_vars env' \<noteq> [] then Inl (EnvironmentError (missing_vars env'))
          else Inr env')"

subsection \<open>Cell 2: the embedding client\<close>

text \<open>
  A response of the service is a dictionary whose entry \<^verbatim>\<open>data\<close> is a list of
  dictionaries; the client reads \<^verbatim>\<open>response['data'][0]['embedding']\<close>. A call of
  the service either raises or returns a response, and moves the service to a new state.
\<close>

type_synonym 'v response = "(string \<times> (string \<times> 'v) list list) list"

datatype 'v outcome = Raises caught | Returns "'v response"

type_synonym ('s, 'v) service = "'s \<Rightarrow> string \<Rightarrow> string cell list \<Rightarrow> 'v outcome \<times> 's"

definition embedding_of :: "'v response \<Rightarrow> caught + 'v" where
  "embedding_of response =
     (case map_of response ''data'' of
        None \<Rightarrow> Inl (KeyError ''data'')
      | Some d \<Rightarrow>
          (case d of
             [] \<Rightarrow> Inl IndexError
           | item # _ \<Rightarrow>
               (case map_of item ''embedding'' of
                  None \<Rightarrow> Inl (KeyError ''embedding'')
                | Some v \<Rightarrow> Inr v)))"

text \<open>
  What the body of the \<^verbatim>\<open>try\<close> block makes of an answer: the exception that
  reaches the \<^verbatim>\<open>except\<close> clause, or the vector that is appended.
\<close>

definition try_result :: "'v outcome \<Rightarrow> caught + 'v" where
  "try_result out = (case out of Raises e \<Rightarrow> Inl e | Returns response \<Rightarrow> embedding_of response)"

text \<open>
  The world: the state of the service, the log of what the
  client did (each request with the service's answer, each printed retry message, each
  sleep with its length in seconds) and the pickled files.
\<close>

datatype 'v event =
    is_Create: Create string "string cell list" "'v outcome"
  | is_Print: Print string
  | is_Sleep: Sleep nat

record ('s, 'v) world =
  service_state :: "'s"
  events :: "'v event list"
  pickles :: "string \<rightharpoonup> 'v dataset"

definition openai_embed_model :: string where
  "openai_embed_model = ''text-embedding-ada-002''"

definition retry_message :: "caught \<Rightarrow> string" where
  "retry_message e = ''Exception occurred: '' @ str_exn e @ ''. Retrying in 5 seconds...''"

text \<open>
  \<^verbatim>\<open>
  def get_embeddings(text_list):
      embedding_list = []
      for text in tqdm(text_list, desc='Getting embeddings', unit='text'):
          done = False
          while not done:
              try:
                  response = openai.Embedding.create(input=[text], engine=openai_embed_model)
                  embedding_list.append(response['data'][0]['embedding'])
                  done = True
              except Exception as e:
                  print(f"Exception occurred: {e}. Retrying in 5 seconds...")
                  time.sleep(5)
      return embedding_list
  \<close>
  \<open>attempt\<close> is one pass through the body of the \<^verbatim>\<open>while\<close> loop: it returns the
  new value of \<^verbatim>\<open>done\<close>, the new \<^verbatim>\<open>embedding_list\<close> and the new world.
  The \<^verbatim>\<open>while\<close> loop has no bound, so it is a partial function: \<open>None\<close> means
  that the loop never ends.
\<close>

definition attempt ::
  "('s, 'v) service \<Rightarrow> string cell \<Rightarrow> 'v list \<times> ('s, 'v) world \<Rightarrow> bool \<times> 'v list \<times> ('s, 'v) world" where
  "attempt svc txt st =
     (case st of (embedding_list, w) \<Rightarrow>
      (case svc (service_state w) openai_embed_model [txt] of (out, s') \<Rightarrow>
        (let w1 = w\<lparr>service_state := s',
                     events := events w @ [Create openai_embed_model [txt] out]\<rparr>
         in case try_result out of
              Inr v \<Rightarrow> (True, embedding_list @ [v], w1)
            | Inl e \<Rightarrow>
                (False, embedding_list,
                 w1\<lparr>events := events w1 @ [Print (retry_message e), Sleep 5]\<rparr>))))"

partial_function (option) while_not_done ::
  "('s, 'v) service \<Rightarrow> string cell \<Rightarrow> bool \<Rightarrow> 'v list \<times> ('s, 'v) world \<Rightarrow> ('v list \<times> ('s, 'v) world) option" where
  "while_not_done svc txt done st =
     (if done then Some st
      else (case attempt svc txt st of (done', st') \<Rightarrow> while_not_done svc txt done' st'))"

fun for_text ::
  "('s, 'v) service \<Rightarrow> string cell list \<Rightarrow> 'v list \<times> ('s, 'v) world \<Rightarrow> ('v list \<times> ('s, 'v) world) option" where
  "for_text svc [] st = Some st"
| "for_text svc (txt # rest) st =
     (case while_not_done svc txt False st of
        None \<Rightarrow> None
      | Some st' \<Rightarrow> for_text svc rest st')"

definition get_embeddings ::
  "('s, 'v) service \<Rightarrow> string cell list \<Rightarrow> ('s, 'v) world \<Rightarrow> ('v list \<times> ('s, 'v) world) option" where
  "get_embeddings svc text_list w = for_text svc text_list ([], w)"

subsection \<open>Reading the log\<close>

text \<open>
  The successful requests of a log, in order: each with the text that was sent and the
  vector that the client took from the answer.
\<close>

fun successes :: "'v event list \<Rightarrow> (string cell \<times> 'v) list" where
  "successes [] = []"
| "successes (Create engine [txt] out # es) =
     (case try_result out of
        Inr v \<Rightarrow> (txt, v) # successes es
      | Inl e \<Rightarrow> successes es)"
| "successes (ev # es) = successes es"

definition service_calls :: "'v event list \<Rightarrow> nat" where
  "service_calls es = length (filter is_Create es)"

text \<open>
  What one pass through the loop body adds to the log, given the answer of the service.
\<close>

definition attempt_events :: "string cell \<Rightarrow> 'v outcome \<Rightarrow> 'v event list" where
  "attempt_events txt out =
     (case try_result out of
        Inr v \<Rightarrow> [Create openai_embed_model [txt] out]
      | Inl e \<Rightarrow> [Create openai_embed_model [txt] out, Print (retry_message e), Sleep 5])"

text \<open>
  A service that, asked for the same text again and again from state \<open>s\<close>, gives the
  answers \<open>fails\<close>, none of which yields a vector, and then the answer \<open>out\<close>, which
  does, ending in state \<open>s'\<close>.
\<close>

fun fails_then_succeeds ::
  "('s, 'v) service \<Rightarrow> 's \<Rightarrow> string cell \<Rightarrow> 'v outcome list \<Rightarrow> 'v outcome \<Rightarrow> 's \<Rightarrow> bool" where
  "fails_then_succeeds svc s txt [] out s' =
     (svc s openai_embed_model [txt] = (out, s') \<and> \<not> isl (try_result out))"
| "fails_then_succeeds svc s txt (f # fails) out s' =
     (case svc s openai_embed_model [txt] of
        (f', s1) \<Rightarrow> f' = f \<and> isl (try_result f) \<and> fails_then_succeeds svc s1 txt fails out s')"

text \<open>The texts of the requests and the lengths of the sleeps of a log, in order.\<close>

definition requests :: "'v event list \<Rightarrow> string cell list list" where
  "requests es = concat (map (\<lambda>ev. case ev of Create engine inp out \<Rightarrow> [inp] | _ \<Rightarrow> []) es)"

definition sleeps :: "'v event list \<Rightarrow> nat list" where
  "sleeps es = concat (map (\<lambda>ev. case ev of Sleep n \<Rightarrow> [n] | _ \<Rightarrow> []) es)"

subsection \<open>Cell 2 and cell 4: the new column and the pickled file\<close>

text \<open>
  \<^verbatim>\<open>df_combined['openaiEmbeddings'] = embedding_results\<close> assigns a list as a
  column. pandas first makes sure that the frame has an index: a frame with no rows that
  receives a non-empty list takes the index of the list, and its existing columns are
  filled with the missing-value marker. After that the length of the list must be the
  length of the index, or the assignment raises \<^verbatim>\<open>ValueError\<close>.
\<close>

definition set_openaiEmbeddings :: "frame \<Rightarrow> 'v list \<Rightarrow> exn + 'v dataset" where
  "set_openaiEmbeddings df value =
     (if df = [] \<and> value \<noteq> []
      then Inr (map (\<lambda>v. \<lparr>type = NaN, text = NaN, openaiEmbeddings = v\<rparr>) value)
      else if length value \<noteq> length df
      then Inl (ValueError_length_mismatch (length value) (length df))
      else Inr (map2 (\<lambda>r v. \<lparr>type = type r, text = text r, openaiEmbeddings = v\<rparr>) df value))"

text \<open>
  \<^verbatim>\<open>df_combined.to_pickle('data/text.pkl')\<close> opens the path for writing, which
  needs the directory of the path to be there and the path itself not to be a directory.
  An existing file is overwritten. What the file then holds is the dataset.
\<close>

definition dirname :: "string \<Rightarrow> string" where
  "dirname path = rev (drop 1 (dropWhile (\<lambda>c. c \<noteq> CHR ''/'') (rev path)))"

definition writable :: "files \<Rightarrow> string \<Rightarrow> bool" where
  "writable fs path \<longleftrightarrow> fs (dirname path) = Some Directory \<and> fs path \<noteq> Some Directory"

definition to_pickle ::
  "files \<Rightarrow> string \<Rightarrow> 'v dataset \<Rightarrow> ('s, 'v) world \<Rightarrow> exn + ('s, 'v) world" where
  "to_pickle fs path df w =
     (case fs (dirname path) of
        None \<Rightarrow> Inl (FileNotFoundError path)
      | Some Directory \<Rightarrow>
          (if fs path = Some Directory then Inl (IsADirectoryError path)
           else Inr (w\<lparr>pickles := (pickles w)(path \<mapsto> df)\<rparr>))
      | Some other \<Rightarrow> Inl (NotADirectoryError path))"

text \<open>
  The rest of the notebook once the embeddings are there: the column assignment that ends
  cell 2, then cell 4. Cell 3 prints a count per source and changes nothing. The result
  is the exception that ended the run, or the dataset when cell 4 has written it.
\<close>

definition merge_and_save ::
  "files \<Rightarrow> frame \<Rightarrow> 'v list \<Rightarrow> ('s, 'v) world \<Rightarrow> (exn + 'v dataset) \<times> ('s, 'v) world" where
  "merge_and_save fs df embedding_results w =
     (case set_openaiEmbeddings df embedding_results of
        Inl e \<Rightarrow> (Inl e, w)
      | Inr df' \<Rightarrow>
          (case to_pickle fs ''data/text.pkl'' df' w of
             Inl e \<Rightarrow> (Inl e, w)
           | Inr w' \<Rightarrow> (Inr df', w')))"

subsection \<open>The whole run\<close>

definition run ::
  "files \<Rightarrow> (string \<times> string option) list \<Rightarrow> environ \<Rightarrow> ('s, 'v) service \<Rightarrow> ('s, 'v) world
     \<Rightarrow> ((exn + 'v dataset) \<times> ('s, 'v) world) option" where
  "run fs dotenv env svc w =
     (case load_text fs of
        Inl e \<Rightarrow> Some (Inl e, w)
      | Inr df \<Rightarrow>
          (case check_config dotenv env of
             Inl e \<Rightarrow> Some (Inl e, w)
           | Inr env' \<Rightarrow>
               (case get_embeddings svc (map text df) w of
                  None \<Rightarrow> None
                | Some (embedding_results, w1) \<Rightarrow> Some (merge_and_save fs df embedding_results w1))))"

subsection \<open>A scripted service and a fresh world\<close>

text \<open>
  A stand-in for the remote service whose state is the list of answers it still has to
  give; it ignores what it is asked. When the script is used up it raises for ever.
\<close>

fun scripted :: "('v outcome list, 'v) service" where
  "scripted [] engine inp = (Raises (ServiceError ''script exhausted''), [])"
| "scripted (out # rest) engine inp = (out, rest)"

definition ok_response :: "'v \<Rightarrow> 'v response" where
  "ok_response v = [(''data'', [[(''embedding'', v)]])]"

definition fresh_world :: "'s \<Rightarrow> ('s, 'v) world" where
  "fresh_world s = \<lparr>service_state = s, events = [], pickles = Map.empty\<rparr>"

text \<open>
  The log of one record that is answered by \<open>fails\<close>, all without a vector, and then
  by \<open>out\<close>, with one.
\<close>

definition retry_log :: "string cell \<Rightarrow> 'v outcome list \<Rightarrow> 'v outcome \<Rightarrow> 'v event list" where
  "retry_log t fails out =
     concat (map (attempt_events t) fails) @ [Create openai_embed_model [t] out]"

subsection \<open>A small run\<close>

text \<open>
  Four small files (the second without a final line feed, the third empty), the
  directory for the output, a
  \<^verbatim>\<open>.env\<close> file that holds the key, and a service that fails before the first
  text and sends a response without \<^verbatim>\<open>data\<close> before the third. Vectors are
  numbers here.
\<close>

definition example_files :: files where
  "example_files =
     [''docs'' \<mapsto> Directory,
      ''data'' \<mapsto> Directory,
      ''docs/goats.txt'' \<mapsto> File (''G1'' @ [newline] @ ''G2'' @ [newline]),
      ''docs/gravity.txt'' \<mapsto> File ''L1'',
      ''docs/blackholes.txt'' \<mapsto> File [],
      ''docs/invasivegoats.txt'' \<mapsto> File (''I1'' @ [newline])]"

definition example_dotenv :: "(string \<times> string option) list" where
  "example_dotenv = [(''OPENAI_API_KEY'', Some ''sk-test'')]"

definition example_script :: "nat outcome list" where
  "example_script =
     [Raises (ServiceError ''down''), Returns (ok_response 11), Returns (ok_response 12),
      Returns [], Returns (ok_response 13), Returns (ok_response 14)]"

definition example_frame :: frame where
  "example_frame =
     [\<lparr>type = Val ''goats'', text = Val (''G1'' @ [newline])\<rparr>,
      \<lparr>type = Val ''goats'', text = Val (''G2'' @ [newline])\<rparr>,
      \<lparr>type = Val ''gravity'', text = Val ''L1''\<rparr>,
      \<lparr>type = Val ''invasivegoats'', text = Val (''I1'' @ [newline])\<rparr>]"

definition example_log :: "nat event list" where
  "example_log =
     [Create openai_embed_model [Val (''G1'' @ [newline])] (Raises (ServiceError ''down'')),
      Print (retry_message (ServiceError ''down'')), Sleep 5,
      Create openai_embed_model [Val (''G1'' @ [newline])] (Returns (ok_response 11)),
      Create openai_embed_model [Val (''G2'' @ [newline])] (Returns (ok_response 12)),
      Create openai_embed_model [Val ''L1''] (Returns []),
      Print (retry_message (KeyError ''data'')), Sleep 5,
      Create openai_embed_model [Val ''L1''] (Returns (ok_response 13)),
      Create openai_embed_model [Val (''I1'' @ [newline])] (Returns (ok_response 14))]"

definition example_dataset :: "nat dataset" where
  "example_dataset =
     [\<lparr>type = Val ''goats'', text = Val (''G1'' @ [newline]), openaiEmbeddings = 11\<rparr>,
      \<lparr>type = Val ''goats'', text = Val (''G2'' @ [newline]), openaiEmbeddings = 12\<rparr>,
      \<lparr>type = Val ''gravity'', text = Val ''L1'', openaiEmbeddings = 13\<rparr>,
      \<lparr>type = Val ''invasivegoats'', text = Val (''I1'' @ [newline]), openaiEmbeddings = 14\<rparr>]"

definition example_world :: "(nat outcome list, nat) world" where
  "example_world =
     \<lparr>service_state = [], events = example_log,
      pickles = [''data/text.pkl'' \<mapsto> example_dataset]\<rparr>"

subsection \<open>Services that answer\<close>

text \<open>
  A schedule for a list of texts gives, for each text in turn, the failed answers the
  service gives to it, the answer that yields its vector, and the state in which the
  service is left. \<open>answers_each\<close> says that the service, started in state \<open>s\<close> and
  asked for each text until it is answered, behaves as the schedule says.
\<close>

fun answers_each ::
  "('s, 'v) service \<Rightarrow> 's \<Rightarrow> string cell list \<Rightarrow> ('v outcome list \<times> 'v outcome \<times> 's) list \<Rightarrow> bool" where
  "answers_each svc s [] sched = (sched = [])"
| "answers_each svc s (t # ts) [] = False"
| "answers_each svc s (t # ts) ((fails, out, s1) # rest) =
     (fails_then_succeeds svc s t fails out s1 \<and> answers_each svc s1 ts rest)"

text \<open>
  A responsive service answers every text after finitely many failures, whatever state
  it is in.
\<close>

definition responsive :: "('s, 'v) service \<Rightarrow> bool" where
  "responsive svc \<longleftrightarrow> (\<forall>s t. \<exists>fails out s'. fails_then_succeeds svc s t fails out s')"

text \<open>
  A stand-in that counts its calls: it is busy at every even call and answers every odd
  call with the number of the call as the vector.
\<close>

definition steady :: "(nat, nat) service" where
  "steady n engine inp =
     (if even n then (Raises (ServiceError ''busy''), n + 1)
      else (Returns (ok_response n), n + 1))"

text \<open>The schedule that the service of the small run follows.\<close>

definition example_schedule :: "(nat outcome list \<times> nat outcome \<times> nat outcome list) list" where
  "example_schedule =
     [([Raises (ServiceError ''down'')], Returns (ok_response 11),
       [Returns (ok_response 12), Returns [], Returns (ok_response 13), Returns (ok_response 14)]),
      ([], Returns (ok_response 12),
       [Returns [], Returns (ok_response 13), Returns (ok_response 14)]),
      ([Returns []], Returns (ok_response 13), [Returns (ok_response 14)]),
      ([], Returns (ok_response 14), [])]"

section \<open>Properties\<close>

subsection \<open>The loader\<close>










lemma universal_newlines_length: "length (universal_newlines s) \<le> length s"
  by (induction s rule: universal_newlines.induct) auto

subsection \<open>The log\<close>

lemma successes_append: "successes (xs @ ys) = successes xs @ successes ys"
  by (induction xs rule: successes.induct) (auto split: sum.splits)

lemma successes_attempt_events:
  "successes (attempt_events txt out) = (case try_result out of Inr v \<Rightarrow> [(txt, v)] | Inl e \<Rightarrow> [])"
  by (simp add: attempt_events_def split: sum.splits)

lemma service_calls_append: "service_calls (xs @ ys) = service_calls xs + service_calls ys"
  by (simp add: service_calls_def)

lemma service_calls_attempt_events: "service_calls (attempt_events txt out) = 1"
  by (simp add: attempt_events_def service_calls_def split: sum.splits)

lemma attempt_eq:
  "attempt svc txt (el, w) =
     (let out = fst (svc (service_state w) openai_embed_model [txt]);
          w' = w\<lparr>service_state := snd (svc (service_state w) openai_embed_model [txt]),
                 events := events w @ attempt_events txt out\<rparr>
      in case try_result out of
           Inr v \<Rightarrow> (True, el @ [v], w')
         | Inl e \<Rightarrow> (False, el, w'))"
proof -
  obtain out s' where c: "svc (service_state w) openai_embed_model [txt] = (out, s')"
    by (cases "svc (service_state w) openai_embed_model [txt]")
  show ?thesis
    by (cases "try_result out") (simp_all add: attempt_def attempt_events_def c)
qed

lemma while_done: "while_not_done svc txt True st = Some st"
  by (simp add: while_not_done.simps)

lemma while_step:
  "while_not_done svc txt False st =
     while_not_done svc txt (fst (attempt svc txt st)) (snd (attempt svc txt st))"
  by (subst while_not_done.simps) (simp add: split_beta)

lemma while_sound:
  assumes "while_not_done svc txt d st = Some st'"
  shows "if d then st' = st
         else (\<exists>v es. fst st' = fst st @ [v]
                 \<and> events (snd st') = events (snd st) @ es
                 \<and> successes es = [(txt, v)]
                 \<and> pickles (snd st') = pickles (snd st))"
  using assms
proof (induction rule: while_not_done.raw_induct [rotated 1, consumes 1])
  case (1 loop svc t d st st')
  show ?case
  proof (cases d)
    case True
    with 1(2) show ?thesis by simp
  next
    case False
    obtain el w where st: "st = (el, w)" by (cases st)
    obtain d1 st1 where a: "attempt svc t st = (d1, st1)" by (cases "attempt svc t st")
    from 1(2) False a have l: "loop svc t d1 st1 = Some st'" by simp
    note ih = 1(1) [OF l]
    let ?out = "fst (svc (service_state w) openai_embed_model [t])"
    show ?thesis
    proof (cases "try_result ?out")
      case (Inl e)
      with a st have "d1 = False" "fst st1 = el"
        "events (snd st1) = events w @ attempt_events t ?out"
        "pickles (snd st1) = pickles w"
        by (auto simp: attempt_eq Let_def)
      with ih Inl False st show ?thesis
        by (auto simp: successes_append successes_attempt_events)
    next
      case (Inr v)
      with a st have "d1 = True" "fst st1 = el @ [v]"
        "events (snd st1) = events w @ attempt_events t ?out"
        "pickles (snd st1) = pickles w"
        by (auto simp: attempt_eq Let_def)
      with ih Inr False st show ?thesis
        by (auto simp: successes_attempt_events)
    qed
  qed
qed


lemma while_first:
  assumes "while_not_done svc t False (el, w) = Some st'"
  obtains v es where "fst st' = el @ [v]" "events (snd st') = events w @ es"
    "successes es = [(t, v)]" "pickles (snd st') = pickles w"
  using while_sound [OF assms] by auto

lemma for_text_sound:
  "for_text svc ts (el, w) = Some (el', w') \<Longrightarrow>
     \<exists>vs es. el' = el @ vs \<and> length vs = length ts
        \<and> events w' = events w @ es \<and> successes es = zip ts vs
        \<and> pickles w' = pickles w"
proof (induction ts arbitrary: el w)
  case Nil
  then show ?case by simp
next
  case (Cons t ts)
  from Cons.prems obtain st1 where
    w1: "while_not_done svc t False (el, w) = Some st1" and
    r: "for_text svc ts st1 = Some (el', w')"
    by (auto split: option.splits)
  obtain el1 w1 where st1: "st1 = (el1, w1)" by (cases st1)
  from w1 st1 obtain v es1 where
    h: "el1 = el @ [v]" "events w1 = events w @ es1" "successes es1 = [(t, v)]"
       "pickles w1 = pickles w"
    by (auto elim: while_first)
  from Cons.IH [OF r [unfolded st1]] obtain vs es2 where
    k: "el' = el1 @ vs" "length vs = length ts" "events w' = events w1 @ es2"
       "successes es2 = zip ts vs" "pickles w' = pickles w1"
    by blast
  have "el' = el @ (v # vs)" "length (v # vs) = length (t # ts)"
    "events w' = events w @ (es1 @ es2)" "successes (es1 @ es2) = zip (t # ts) (v # vs)"
    "pickles w' = pickles w"
    using h k by (simp_all add: successes_append)
  then show ?case by blast
qed

lemma get_embeddings_sound:
  assumes "get_embeddings svc ts w = Some (vs, w')"
  shows "length vs = length ts"
    and "\<exists>es. events w' = events w @ es \<and> successes es = zip ts vs"
    and "pickles w' = pickles w"
  using for_text_sound [of svc ts "[]" w vs w'] assms
  by (auto simp: get_embeddings_def)

lemma for_text_append:
  "for_text svc (xs @ ys) st =
     (case for_text svc xs st of None \<Rightarrow> None | Some st' \<Rightarrow> for_text svc ys st')"
  by (induction xs arbitrary: st) (auto split: option.splits)

lemma while_fails_then_succeeds:
  "fails_then_succeeds svc (service_state w) t fails out s' \<Longrightarrow> try_result out = Inr v \<Longrightarrow>
   while_not_done svc t False (el, w) =
     Some (el @ [v],
           w\<lparr>service_state := s',
              events := events w @ concat (map (attempt_events t) fails) @ attempt_events t out\<rparr>)"
proof (induction fails arbitrary: w)
  case Nil
  then show ?case
    by (simp add: while_step attempt_eq while_done)
next
  case (Cons f fails)
  obtain f' s1 where c: "svc (service_state w) openai_embed_model [t] = (f', s1)"
    by (cases "svc (service_state w) openai_embed_model [t]")
  with Cons.prems have f: "f' = f" "isl (try_result f)"
    and r: "fails_then_succeeds svc s1 t fails out s'"
    by auto
  from f obtain e where e: "try_result f = Inl e" by (cases "try_result f") auto
  let ?w1 = "w\<lparr>service_state := s1, events := events w @ attempt_events t f\<rparr>"
  have a: "attempt svc t (el, w) = (False, el, ?w1)"
    by (simp add: attempt_eq c f e)
  have "while_not_done svc t False (el, w) = while_not_done svc t False (el, ?w1)"
    by (subst while_step) (simp add: a)
  also have "\<dots> = Some (el @ [v],
      ?w1\<lparr>service_state := s',
          events := events ?w1 @ concat (map (attempt_events t) fails) @ attempt_events t out\<rparr>)"
    using Cons.IH [of ?w1] r Cons.prems(2) by simp
  finally show ?case by simp
qed


lemma requests_append: "requests (xs @ ys) = requests xs @ requests ys"
  by (simp add: requests_def)

lemma sleeps_append: "sleeps (xs @ ys) = sleeps xs @ sleeps ys"
  by (simp add: sleeps_def)

lemma requests_attempt_events: "requests (attempt_events t out) = [[t]]"
  by (simp add: requests_def attempt_events_def split: sum.splits)

lemma sleeps_attempt_events:
  "sleeps (attempt_events t out) = (if isl (try_result out) then [5] else [])"
  by (auto simp: sleeps_def attempt_events_def split: sum.splits)

lemma fails_all_fail:
  "fails_then_succeeds svc s t fails out s' \<Longrightarrow> \<forall>f \<in> set fails. isl (try_result f)"
  by (induction fails arbitrary: s) (auto split: prod.splits)

lemma requests_fails: "requests (concat (map (attempt_events t) fails)) = replicate (length fails) [t]"
  by (induction fails) (simp_all add: requests_def requests_attempt_events [unfolded requests_def])

lemma sleeps_fails:
  "\<forall>f \<in> set fails. isl (try_result f) \<Longrightarrow>
   sleeps (concat (map (attempt_events t) fails)) = replicate (length fails) 5"
  by (induction fails) (simp_all add: sleeps_def sleeps_attempt_events [unfolded sleeps_def])

lemma service_calls_fails:
  "service_calls (concat (map (attempt_events t) fails)) = length fails"
proof (induction fails)
  case Nil
  show ?case by (simp add: service_calls_def)
next
  case (Cons f fails)
  have "service_calls (attempt_events t f @ concat (map (attempt_events t) fails)) = Suc (length fails)"
    unfolding service_calls_append using Cons by (simp add: service_calls_attempt_events)
  then show ?case by simp
qed

subsection \<open>Retry until the service answers\<close>

text \<open>
  C4. Let the service, asked for the text \<open>t\<close> from its current state, fail \<open>k\<close> times
  (the answers \<open>fails\<close>, with \<open>k = length fails\<close>) and then give an answer \<open>out\<close> that
  holds the vector \<open>v\<close>. Then the loop for this record ends, and it appends exactly \<open>v\<close>.
  Its log for the record is: for every failed answer the request, the retry message and
  a sleep of 5 seconds, and then the successful request. So the service is called
  \<open>k + 1\<close> times and no more, every request carries the same text \<open>t\<close>, and there are
  \<open>k\<close> sleeps of 5 seconds each. The client called on the one-record list returns \<open>[v]\<close>.
\<close>

theorem retry_terminates:
  assumes "fails_then_succeeds svc (service_state w) t fails out s'"
    and "try_result out = Inr v"
  shows "while_not_done svc t False (el, w) =
           Some (el @ [v], w\<lparr>service_state := s', events := events w @ retry_log t fails out\<rparr>)
       \<and> get_embeddings svc [t] w =
           Some ([v], w\<lparr>service_state := s', events := events w @ retry_log t fails out\<rparr>)
       \<and> service_calls (retry_log t fails out) = length fails + 1
       \<and> requests (retry_log t fails out) = replicate (length fails + 1) [t]
       \<and> sleeps (retry_log t fails out) = replicate (length fails) 5"
proof -
  let ?w' = "w\<lparr>service_state := s', events := events w @ retry_log t fails out\<rparr>"
  have ae: "retry_log t fails out = concat (map (attempt_events t) fails) @ attempt_events t out"
    using assms(2) by (simp add: attempt_events_def retry_log_def)
  have 1: "while_not_done svc t False (el, w) = Some (el @ [v], ?w')" for el
    using while_fails_then_succeeds [OF assms] by (simp add: ae)
  have 2: "get_embeddings svc [t] w = Some ([v], ?w')"
    by (simp add: get_embeddings_def 1)
  have 3: "service_calls (retry_log t fails out) = length fails + 1"
    unfolding ae by (simp add: service_calls_append service_calls_fails service_calls_attempt_events)
  have 4: "requests (retry_log t fails out) = replicate (length fails + 1) [t]"
    unfolding ae by (simp add: requests_append requests_fails requests_attempt_events replicate_append_same)
  have 5: "sleeps (retry_log t fails out) = replicate (length fails) 5"
    using fails_all_fail [OF assms(1)] assms(2) unfolding ae
    by (simp add: sleeps_append sleeps_fails sleeps_attempt_events)
  show ?thesis
    using 1 2 3 4 5 by simp
qed

text \<open>
  The theorem at work: a service that raises once, then returns a response without
  \<^verbatim>\<open>data\<close>, then returns a proper response with the vector 7.
\<close>

theorem retry_terminates_witness:
  "fails_then_succeeds scripted [Raises (ServiceError ''down''), Returns [], Returns (ok_response (7::nat))]
      (Val ''a'') [Raises (ServiceError ''down''), Returns []] (Returns (ok_response 7)) []
   \<and> try_result (Returns (ok_response (7::nat))) = Inr 7
   \<and> while_not_done scripted (Val ''a'') False
        ([], fresh_world [Raises (ServiceError ''down''), Returns [], Returns (ok_response (7::nat))])
      = Some ([7],
          \<lparr>service_state = [],
           events = [Create openai_embed_model [Val ''a''] (Raises (ServiceError ''down'')),
                     Print ''Exception occurred: down. Retrying in 5 seconds...'', Sleep 5,
                     Create openai_embed_model [Val ''a''] (Returns []),
                     Print (''Exception occurred: '' @ [CHR 0x27] @ ''data'' @ [CHR 0x27] @ ''. Retrying in 5 seconds...''), Sleep 5,
                     Create openai_embed_model [Val ''a''] (Returns (ok_response 7))],
           pickles = Map.empty\<rparr>)"
proof -
  let ?s = "[Raises (ServiceError ''down''), Returns [], Returns (ok_response (7::nat))]"
  have h1: "fails_then_succeeds scripted (service_state (fresh_world ?s :: (nat outcome list, nat) world))
      (Val ''a'') [Raises (ServiceError ''down''), Returns []] (Returns (ok_response 7)) []"
    by (simp add: fresh_world_def try_result_def embedding_of_def ok_response_def)
  have h2: "try_result (Returns (ok_response (7::nat))) = Inr 7"
    by (simp add: try_result_def embedding_of_def ok_response_def)
  show ?thesis
    using retry_terminates [OF h1 h2, of "[]"] h1 h2
    by (simp add: fresh_world_def attempt_events_def try_result_def embedding_of_def
        retry_message_def ok_response_def retry_log_def)
qed

subsection \<open>The stages of a run\<close>



lemma set_openaiEmbeddings_same_length:
  "length value = length df \<Longrightarrow>
   set_openaiEmbeddings df value =
     Inr (map2 (\<lambda>r v. \<lparr>type = type r, text = text r, openaiEmbeddings = v\<rparr>) df value)"
  by (cases df) (auto simp: set_openaiEmbeddings_def)

lemma merged_columns:
  assumes "length df = length vs"
  shows "length (map2 (\<lambda>r v. \<lparr>type = type r, text = text r, openaiEmbeddings = v\<rparr>) df vs) = length df
    \<and> map type (map2 (\<lambda>r v. \<lparr>type = type r, text = text r, openaiEmbeddings = v\<rparr>) df vs) = map type df
    \<and> map text (map2 (\<lambda>r v. \<lparr>type = type r, text = text r, openaiEmbeddings = v\<rparr>) df vs) = map text df
    \<and> map openaiEmbeddings (map2 (\<lambda>r v. \<lparr>type = type r, text = text r, openaiEmbeddings = v\<rparr>) df vs) = vs"
  using assms by (induction df vs rule: list_induct2) simp_all

lemma dirname_pkl: "dirname ''data/text.pkl'' = ''data''"
  by (simp add: dirname_def)

lemma to_pickle_writable:
  "writable fs path \<Longrightarrow> to_pickle fs path df w = Inr (w\<lparr>pickles := (pickles w)(path \<mapsto> df)\<rparr>)"
  by (simp add: writable_def to_pickle_def)

lemma to_pickle_not_writable: "\<not> writable fs path \<Longrightarrow> isl (to_pickle fs path df w)"
  by (auto simp: writable_def to_pickle_def split: option.splits entry.splits)

lemma to_pickle_Inr:
  "to_pickle fs path df w = Inr w' \<Longrightarrow>
     writable fs path \<and> w' = w\<lparr>pickles := (pickles w)(path \<mapsto> df)\<rparr>"
  by (auto simp: writable_def to_pickle_def split: option.splits entry.splits if_splits)

lemma run_embedded:
  assumes "load_text fs = Inr df" "check_config dotenv env = Inr env'"
    "get_embeddings svc (map text df) w = Some (vs, w1)"
  shows "run fs dotenv env svc w =
     Some (case to_pickle fs ''data/text.pkl''
                  (map2 (\<lambda>r v. \<lparr>type = type r, text = text r, openaiEmbeddings = v\<rparr>) df vs) w1 of
             Inl e \<Rightarrow> (Inl e, w1)
           | Inr w' \<Rightarrow>
               (Inr (map2 (\<lambda>r v. \<lparr>type = type r, text = text r, openaiEmbeddings = v\<rparr>) df vs), w'))"
proof -
  have "length vs = length df"
    using get_embeddings_sound(1) [OF assms(3)] by simp
  then show ?thesis
    using assms by (simp add: run_def merge_and_save_def set_openaiEmbeddings_same_length)
qed

lemma run_Inr:
  assumes "run fs dotenv env svc w = Some (Inr final, w')"
  obtains df env' vs w1 where "load_text fs = Inr df" "check_config dotenv env = Inr env'"
    "get_embeddings svc (map text df) w = Some (vs, w1)"
    "final = map2 (\<lambda>r v. \<lparr>type = type r, text = text r, openaiEmbeddings = v\<rparr>) df vs"
    "w' = w1\<lparr>pickles := (pickles w1)(''data/text.pkl'' \<mapsto> final)\<rparr>" "length vs = length df"
    "writable fs ''data/text.pkl''"
proof -
  from assms obtain df where 1: "load_text fs = Inr df"
    by (cases "load_text fs") (auto simp: run_def)
  from assms 1 obtain env' where 2: "check_config dotenv env = Inr env'"
    by (cases "check_config dotenv env") (auto simp: run_def)
  from assms 1 2 obtain vs w1 where 3: "get_embeddings svc (map text df) w = Some (vs, w1)"
    by (cases "get_embeddings svc (map text df) w") (auto simp: run_def)
  have 4: "length vs = length df"
    using get_embeddings_sound(1) [OF 3] by simp
  let ?final = "map2 (\<lambda>r v. \<lparr>type = type r, text = text r, openaiEmbeddings = v\<rparr>) df vs"
  from run_embedded [OF 1 2 3] assms
  have 5: "to_pickle fs ''data/text.pkl'' ?final w1 = Inr w'" and 6: "final = ?final"
    by (auto split: sum.splits)
  from to_pickle_Inr [OF 5] 6
  have "w' = w1\<lparr>pickles := (pickles w1)(''data/text.pkl'' \<mapsto> final)\<rparr>"
    "writable fs ''data/text.pkl''" by simp_all
  with that [OF 1 2 3 6 _ 4] show ?thesis by simp
qed


subsection \<open>Services that answer make the client return\<close>

lemma fails_then_succeeds_vector:
  "fails_then_succeeds svc s t fails out s' \<Longrightarrow> \<exists>v. try_result out = Inr v"
proof (induction fails arbitrary: s)
  case Nil
  then show ?case by (cases "try_result out") auto
next
  case (Cons f fails)
  then show ?case by (auto split: prod.splits)
qed

lemma for_text_answers:
  "answers_each svc (service_state w) ts sched \<Longrightarrow> \<exists>st'. for_text svc ts (el, w) = Some st'"
proof (induction ts arbitrary: sched el w)
  case Nil
  show ?case by simp
next
  case (Cons t ts)
  from Cons.prems obtain fails out s1 rest where
    sched: "sched = (fails, out, s1) # rest" and
    f: "fails_then_succeeds svc (service_state w) t fails out s1" and
    r: "answers_each svc s1 ts rest"
    by (cases sched) auto
  from fails_then_succeeds_vector [OF f] obtain v where v: "try_result out = Inr v" ..
  let ?w1 = "w\<lparr>service_state := s1,
      events := events w @ concat (map (attempt_events t) fails) @ attempt_events t out\<rparr>"
  have 1: "while_not_done svc t False (el, w) = Some (el @ [v], ?w1)"
    by (rule while_fails_then_succeeds [OF f v])
  have "answers_each svc (service_state ?w1) ts rest"
    using r by simp
  from Cons.IH [OF this, of "el @ [v]"] obtain st' where
    "for_text svc ts (el @ [v], ?w1) = Some st'" ..
  with 1 show ?case by simp
qed

lemma get_embeddings_answers:
  assumes "answers_each svc (service_state w) ts sched"
  shows "\<exists>vs w1. get_embeddings svc ts w = Some (vs, w1)"
proof -
  from for_text_answers [OF assms, of "[]"] obtain st' where
    "for_text svc ts ([], w) = Some st'" ..
  then show ?thesis
    by (cases st') (simp add: get_embeddings_def)
qed

lemma responsive_answers_each:
  assumes "responsive svc"
  shows "\<exists>sched. answers_each svc s ts sched"
proof (induction ts arbitrary: s)
  case Nil
  show ?case by simp
next
  case (Cons t ts)
  from assms obtain fails out s1 where f: "fails_then_succeeds svc s t fails out s1"
    unfolding responsive_def by blast
  from Cons.IH [of s1] obtain rest where "answers_each svc s1 ts rest" ..
  with f have "answers_each svc s (t # ts) ((fails, out, s1) # rest)" by simp
  then show ?case ..
qed

lemma responsive_steady: "responsive steady"
  unfolding responsive_def
proof (intro allI)
  fix s :: nat and t :: "string cell"
  show "\<exists>fails out s'. fails_then_succeeds steady s t fails out s'"
  proof (cases "even s")
    case True
    then have "fails_then_succeeds steady s t [Raises (ServiceError ''busy'')]
        (Returns (ok_response (s + 1))) (s + 1 + 1)"
      by (simp add: steady_def try_result_def embedding_of_def ok_response_def)
    then show ?thesis by blast
  next
    case False
    then have "fails_then_succeeds steady s t [] (Returns (ok_response s)) (s + 1)"
      by (simp add: steady_def try_result_def embedding_of_def ok_response_def)
    then show ?thesis by blast
  qed
qed

subsection \<open>The small run, evaluated\<close>

lemma example_load: "load_text example_files = Inr example_frame"
  by (simp add: load_text_def read_file_def example_files_def df_combined_def DataFrame_def
      pd_concat_def reset_index_def example_frame_def newline_def carriage_return_def)

lemma example_config:
  "check_config example_dotenv Map.empty = Inr [''OPENAI_API_KEY'' \<mapsto> ''sk-test'']"
  by (simp add: check_config_def load_dotenv_def example_dotenv_def missing_vars_def envVars_def)

lemma try_ok: "try_result (Returns (ok_response v)) = Inr v"
  by (simp add: try_result_def embedding_of_def ok_response_def)

lemma try_raises: "try_result (Raises e) = Inl e"
  by (simp add: try_result_def)

lemma try_no_data: "try_result (Returns []) = Inl (KeyError ''data'')"
  by (simp add: try_result_def embedding_of_def)

lemma example_embeddings:
  "get_embeddings scripted (map text example_frame) (fresh_world example_script) =
     Some ([11, 12, 13, 14], \<lparr>service_state = [], events = example_log, pickles = Map.empty\<rparr>)"
  by (simp add: get_embeddings_def example_frame_def fresh_world_def example_script_def
      while_step while_done attempt_eq try_ok try_raises try_no_data attempt_events_def
      example_log_def)

lemma example_writable: "writable example_files ''data/text.pkl''"
  by (simp add: writable_def dirname_def example_files_def)

lemma example_merge:
  "merge_and_save example_files example_frame [11, 12, 13, 14]
     \<lparr>service_state = [], events = example_log, pickles = Map.empty\<rparr> =
   (Inr example_dataset, example_world)"
  by (simp add: merge_and_save_def set_openaiEmbeddings_def to_pickle_writable [OF example_writable]
      example_frame_def example_dataset_def example_world_def)

lemma example_run:
  "run example_files example_dotenv Map.empty scripted (fresh_world example_script) =
     Some (Inr example_dataset, example_world)"
  by (simp add: run_def example_load example_config example_embeddings example_merge)

lemma example_answers:
  "answers_each scripted (service_state (fresh_world example_script :: (nat outcome list, nat) world))
     (map text example_frame) example_schedule"
  by (simp add: fresh_world_def example_script_def example_frame_def example_schedule_def
      try_ok try_raises try_no_data)

lemma example_steady:
  "map_option fst (get_embeddings steady (map text example_frame) (fresh_world 10)) =
     Some [11, 13, 15, 17]"
  by (simp add: get_embeddings_def example_frame_def fresh_world_def steady_def
      while_step while_done attempt_eq try_ok try_raises Let_def)

section \<open>The claims about whole runs\<close>



text \<open>
  C2 (length invariant). Let the four files be readable and the configuration be there.
  If the service answers each record of the assembled frame after finitely many failed
  answers (along the schedule \<open>sched\<close>, or because it is responsive in every state),
  then the embedding client returns. And whenever the client returns, the column
  assignment succeeds, and the assembled frame, the list of vectors and the dataset have
  the same length; the vectors of the dataset are the ones the client returned, and the
  successful requests in the client's log are exactly the records paired with their
  vectors, in order: one per record, none twice, none left out. The run then ends with
  this dataset, provided cell 4 can write its file, and with the exception of cell 4
  otherwise.
\<close>

theorem length_invariant:
  assumes "load_text fs = Inr df" and "check_config dotenv env = Inr env'"
  shows "(answers_each svc (service_state w) (map text df) sched \<or> responsive svc \<longrightarrow>
            (\<exists>vs w1. get_embeddings svc (map text df) w = Some (vs, w1)))
       \<and> (\<forall>vs w1. get_embeddings svc (map text df) w = Some (vs, w1) \<longrightarrow>
            (\<exists>final new.
                set_openaiEmbeddings df vs = Inr final
              \<and> length df = length vs \<and> length vs = length final
              \<and> map openaiEmbeddings final = vs
              \<and> events w1 = events w @ new
              \<and> successes new = zip (map text df) vs
              \<and> length (successes new) = length df
              \<and> run fs dotenv env svc w =
                  Some (case to_pickle fs ''data/text.pkl'' final w1 of
                          Inl e \<Rightarrow> (Inl e, w1)
                        | Inr w' \<Rightarrow> (Inr final, w'))
              \<and> (writable fs ''data/text.pkl'' \<longrightarrow>
                  run fs dotenv env svc w =
                    Some (Inr final, w1\<lparr>pickles := (pickles w1)(''data/text.pkl'' \<mapsto> final)\<rparr>))))"
proof (intro conjI impI allI)
  assume "answers_each svc (service_state w) (map text df) sched \<or> responsive svc"
  then obtain sched' where "answers_each svc (service_state w) (map text df) sched'"
    using responsive_answers_each [of svc "service_state w" "map text df"] by blast
  then show "\<exists>vs w1. get_embeddings svc (map text df) w = Some (vs, w1)"
    by (rule get_embeddings_answers)
next
  fix vs w1
  assume g: "get_embeddings svc (map text df) w = Some (vs, w1)"
  let ?final = "map2 (\<lambda>r v. \<lparr>type = type r, text = text r, openaiEmbeddings = v\<rparr>) df vs"
  have n: "length df = length vs"
    using get_embeddings_sound(1) [OF g] by simp
  from get_embeddings_sound(2) [OF g] obtain new where
    new: "events w1 = events w @ new" "successes new = zip (map text df) vs" by blast
  have s: "set_openaiEmbeddings df vs = Inr ?final"
    using n by (simp add: set_openaiEmbeddings_same_length)
  have r: "run fs dotenv env svc w =
      Some (case to_pickle fs ''data/text.pkl'' ?final w1 of
              Inl e \<Rightarrow> (Inl e, w1) | Inr w' \<Rightarrow> (Inr ?final, w'))"
    by (rule run_embedded [OF assms g])
  have w: "writable fs ''data/text.pkl'' \<longrightarrow>
      run fs dotenv env svc w =
        Some (Inr ?final, w1\<lparr>pickles := (pickles w1)(''data/text.pkl'' \<mapsto> ?final)\<rparr>)"
    using r by (simp add: to_pickle_writable)
  have m: "length vs = length ?final" "map openaiEmbeddings ?final = vs"
    using merged_columns [OF n] n by simp_all
  have l: "length (successes new) = length df"
    using new n by simp
  from s n m new l r w
  show "\<exists>final new.
                set_openaiEmbeddings df vs = Inr final
              \<and> length df = length vs \<and> length vs = length final
              \<and> map openaiEmbeddings final = vs
              \<and> events w1 = events w @ new
              \<and> successes new = zip (map text df) vs
              \<and> length (successes new) = length df
              \<and> run fs dotenv env svc w =
                  Some (case to_pickle fs ''data/text.pkl'' final w1 of
                          Inl e \<Rightarrow> (Inl e, w1)
                        | Inr w' \<Rightarrow> (Inr final, w'))
              \<and> (writable fs ''data/text.pkl'' \<longrightarrow>
                  run fs dotenv env svc w =
                    Some (Inr final, w1\<lparr>pickles := (pickles w1)(''data/text.pkl'' \<mapsto> final)\<rparr>))"
    by blast
qed

text \<open>
  The theorem at work, on the small run with its scripted service and on the same files
  with the responsive service that is busy at every other call.
\<close>

theorem length_invariant_witness:
  "load_text example_files = Inr example_frame
   \<and> check_config example_dotenv Map.empty = Inr [''OPENAI_API_KEY'' \<mapsto> ''sk-test'']
   \<and> answers_each scripted (service_state (fresh_world example_script :: (nat outcome list, nat) world))
       (map text example_frame) example_schedule
   \<and> get_embeddings scripted (map text example_frame) (fresh_world example_script) =
       Some ([11, 12, 13, 14], \<lparr>service_state = [], events = example_log, pickles = Map.empty\<rparr>)
   \<and> set_openaiEmbeddings example_frame [11, 12, 13, 14] = Inr example_dataset
   \<and> writable example_files ''data/text.pkl''
   \<and> run example_files example_dotenv Map.empty scripted (fresh_world example_script) =
       Some (Inr example_dataset, example_world)
   \<and> length example_frame = 4 \<and> length [11, 12, 13, 14 :: nat] = 4 \<and> length example_dataset = 4
   \<and> successes example_log = zip (map text example_frame) [11, 12, 13, 14]
   \<and> responsive steady
   \<and> map_option fst (get_embeddings steady (map text example_frame) (fresh_world 10)) =
       Some [11, 13, 15, 17]"
proof -
  have s: "set_openaiEmbeddings example_frame [11, 12, 13, 14] = Inr example_dataset"
    by (simp add: set_openaiEmbeddings_def example_frame_def example_dataset_def)
  have z: "successes example_log = zip (map text example_frame) [11, 12, 13, 14]"
    by (simp add: example_frame_def example_log_def try_ok try_raises try_no_data)
  have n: "length example_frame = 4 \<and> length [11, 12, 13, 14 :: nat] = 4 \<and> length example_dataset = 4"
    by (simp add: example_frame_def example_dataset_def)
  note t1 = length_invariant [OF example_load example_config,
      where svc = scripted and w = "fresh_world example_script" and sched = example_schedule]
  note t2 = length_invariant [OF example_load example_config,
      where svc = steady and w = "fresh_world 10" and sched = "[]"]
  from t1 t2 show ?thesis
    using example_load example_config example_answers example_embeddings example_writable
      example_run responsive_steady example_steady s z n
    by simp
qed

text \<open>
  C3 (positional guarantee of the client). If the client returns, it returns as many
  vectors as it was given texts, and its log holds exactly one successful request per
  text, in order: the successful request number \<open>i\<close> was made for the text at position
  \<open>i\<close> and its answer is the vector at position \<open>i\<close>.
\<close>

theorem positional_guarantee:
  assumes "get_embeddings svc ts w = Some (vs, w')"
  shows "length vs = length ts
       \<and> (\<exists>new. events w' = events w @ new
            \<and> length (successes new) = length ts
            \<and> (\<forall>i < length ts. successes new ! i = (ts ! i, vs ! i)))"
proof -
  have n: "length vs = length ts"
    by (rule get_embeddings_sound(1) [OF assms])
  from get_embeddings_sound(2) [OF assms] obtain new where
    new: "events w' = events w @ new" "successes new = zip ts vs" by blast
  have "length (successes new) = length ts"
    "\<forall>i < length ts. successes new ! i = (ts ! i, vs ! i)"
    using new n by simp_all
  with n new(1) show ?thesis by blast
qed

theorem positional_guarantee_witness:
  "get_embeddings scripted (map text example_frame) (fresh_world example_script) =
       Some ([11, 12, 13, 14], \<lparr>service_state = [], events = example_log, pickles = Map.empty\<rparr>)
   \<and> length [11, 12, 13, 14 :: nat] = length (map text example_frame)
   \<and> successes example_log ! 2 = (map text example_frame ! 2, [11, 12, 13, 14] ! 2)
   \<and> successes example_log ! 2 = (Val ''L1'', 13)"
  using positional_guarantee [OF example_embeddings] example_embeddings
  by (simp add: example_frame_def example_log_def try_ok try_raises try_no_data fresh_world_def)

section \<open>The claims about single stages\<close>

lemma attempt_list:
  "fst (snd (attempt svc t (el, w))) =
     (case try_result (fst (svc (service_state w) openai_embed_model [t])) of
        Inl e \<Rightarrow> el | Inr v \<Rightarrow> el @ [v])"
  by (simp add: attempt_eq Let_def split: sum.splits)

lemma attempt_done:
  "fst (attempt svc t (el, w)) =
     (\<not> isl (try_result (fst (svc (service_state w) openai_embed_model [t]))))"
  by (simp add: attempt_eq Let_def split: sum.splits)

lemma for_text_prefix:
  assumes "for_text svc ts ([], w) = Some fin" and "i \<le> length ts"
  shows "\<exists>el wi new. for_text svc (take i ts) ([], w) = Some (el, wi)
           \<and> for_text svc (drop i ts) (el, wi) = Some fin
           \<and> length el = i \<and> el = take i (fst fin)
           \<and> events wi = events w @ new \<and> successes new = zip (take i ts) el"
proof -
  have "for_text svc (take i ts @ drop i ts) ([], w) = Some fin"
    using assms(1) by simp
  then obtain mid where
    m: "for_text svc (take i ts) ([], w) = Some mid" and
    r: "for_text svc (drop i ts) mid = Some fin"
    unfolding for_text_append by (auto split: option.splits)
  obtain el wi where mid: "mid = (el, wi)" by (cases mid)
  obtain elf wf where fin: "fin = (elf, wf)" by (cases fin)
  from for_text_sound [OF m [unfolded mid]] obtain new where
    a: "length el = length (take i ts)" "events wi = events w @ new"
       "successes new = zip (take i ts) el"
    by auto
  from for_text_sound [OF r [unfolded mid fin]] obtain vs where
    b: "elf = el @ vs" by auto
  have "length el = i" using a(1) assms(2) by simp
  moreover from this b fin have "el = take i (fst fin)" by simp
  ultimately show ?thesis using m r mid a by blast
qed

lemma example_for_text:
  "for_text scripted (map text example_frame) ([], fresh_world example_script) =
     Some ([11, 12, 13, 14], \<lparr>service_state = [], events = example_log, pickles = Map.empty\<rparr>)"
  using example_embeddings by (simp add: get_embeddings_def)



lemma example_prefix:
  "for_text scripted (take 2 (map text example_frame)) ([], fresh_world example_script) =
     Some ([11, 12],
           \<lparr>service_state = [Returns [], Returns (ok_response 13), Returns (ok_response 14)],
            events = take 5 example_log, pickles = Map.empty\<rparr>)"
  by (simp add: example_frame_def fresh_world_def example_script_def
      while_step while_done attempt_eq try_ok try_raises attempt_events_def example_log_def)

lemma example_prefix_successes:
  "successes (take 5 example_log) = zip (take 2 (map text example_frame)) [11, 12]"
  by (simp add: example_frame_def example_log_def try_ok try_raises)

text \<open>
  C10 (a failed request appends nothing). One pass through the loop body sets
  \<^verbatim>\<open>done\<close> exactly when the answer yields a vector; it leaves
  \<^verbatim>\<open>embedding_list\<close> as it is when the answer fails and appends the one vector
  when it succeeds. And when the loop over the texts comes to an end, then for every
  \<open>i\<close> up to the number of texts the loop over the first \<open>i\<close> texts ends in a state
  from which the loop over the remaining texts gives the same final state; in that
  state the list holds exactly \<open>i\<close> vectors, the first \<open>i\<close> of the final list, and the
  successful requests logged so far are the first \<open>i\<close> texts paired with these
  vectors, however many failed requests lie between them.
\<close>

theorem retry_atomicity:
  "fst (attempt svc t (el, w)) =
     (\<not> isl (try_result (fst (svc (service_state w) openai_embed_model [t]))))
   \<and> fst (snd (attempt svc t (el, w))) =
     (case try_result (fst (svc (service_state w) openai_embed_model [t])) of
        Inl e \<Rightarrow> el | Inr v \<Rightarrow> el @ [v])
   \<and> (for_text svc ts ([], w0) = Some fin \<and> i \<le> length ts \<longrightarrow>
        (\<exists>el wi new. for_text svc (take i ts) ([], w0) = Some (el, wi)
           \<and> for_text svc (drop i ts) (el, wi) = Some fin
           \<and> length el = i \<and> el = take i (fst fin)
           \<and> events wi = events w0 @ new \<and> successes new = zip (take i ts) el))"
proof (intro conjI impI)
  show "fst (attempt svc t (el, w)) =
     (\<not> isl (try_result (fst (svc (service_state w) openai_embed_model [t]))))"
    by (rule attempt_done)
  show "fst (snd (attempt svc t (el, w))) =
     (case try_result (fst (svc (service_state w) openai_embed_model [t])) of
        Inl e \<Rightarrow> el | Inr v \<Rightarrow> el @ [v])"
    by (rule attempt_list)
  assume "for_text svc ts ([], w0) = Some fin \<and> i \<le> length ts"
  then show "\<exists>el wi new. for_text svc (take i ts) ([], w0) = Some (el, wi)
           \<and> for_text svc (drop i ts) (el, wi) = Some fin
           \<and> length el = i \<and> el = take i (fst fin)
           \<and> events wi = events w0 @ new \<and> successes new = zip (take i ts) el"
    using for_text_prefix [of svc ts w0 fin i] by simp
qed

theorem retry_atomicity_witness:
  "fst (snd (attempt scripted (Val ''L1'')
       ([11, 12], \<lparr>service_state = [Returns [], Returns (ok_response (13::nat))],
                    events = [], pickles = Map.empty\<rparr>))) = [11, 12]
   \<and> for_text scripted (map text example_frame) ([], fresh_world example_script) =
        Some ([11, 12, 13, 14], \<lparr>service_state = [], events = example_log, pickles = Map.empty\<rparr>)
   \<and> (2::nat) \<le> length (map text example_frame)
   \<and> for_text scripted (take 2 (map text example_frame)) ([], fresh_world example_script) =
        Some ([11, 12],
              \<lparr>service_state = [Returns [], Returns (ok_response 13), Returns (ok_response 14)],
               events = take 5 example_log, pickles = Map.empty\<rparr>)
   \<and> successes (take 5 example_log) = zip (take 2 (map text example_frame)) [11, 12]"
proof -
  have c: "(2::nat) \<le> length (map text example_frame)"
    by (simp add: example_frame_def)
  have d: "fst (snd (attempt scripted (Val ''L1'')
       ([11, 12], \<lparr>service_state = [Returns [], Returns (ok_response (13::nat))],
                    events = [], pickles = Map.empty\<rparr>))) = [11, 12]"
    using retry_atomicity [of scripted "Val ''L1''" "[11, 12]"
        "\<lparr>service_state = [Returns [], Returns (ok_response (13::nat))], events = [], pickles = Map.empty\<rparr>"
        "map text example_frame" "fresh_world example_script"
        "([11, 12, 13, 14], \<lparr>service_state = [], events = example_log, pickles = Map.empty\<rparr>)" 2]
    by (simp add: try_no_data)
  show ?thesis
    using d c example_for_text example_prefix example_prefix_successes by simp
qed

lemma df_combined_eq:
  "df_combined goats_lines gravity_lines blackholes_lines invasivegoats_lines =
     Inr (DataFrame ''goats'' goats_lines @ DataFrame ''gravity'' gravity_lines
          @ DataFrame ''blackholes'' blackholes_lines
          @ DataFrame ''invasivegoats'' invasivegoats_lines)"
  by (simp add: df_combined_def pd_concat_def reset_index_def)

lemma pd_concat_nonempty: "objs \<noteq> [] \<Longrightarrow> pd_concat objs = Inr (concat objs)"
  by (simp add: pd_concat_def)

lemma run_labels:
  assumes "run fs dotenv env svc w = Some (Inr final, w')"
  shows "\<exists>df. load_text fs = Inr df \<and> map type final = map type df
           \<and> pickles w' ''data/text.pkl'' = Some final"
proof -
  from assms obtain df env' vs w1 where
    l: "load_text fs = Inr df" and
    f: "final = map2 (\<lambda>r v. \<lparr>type = type r, text = text r, openaiEmbeddings = v\<rparr>) df vs" and
    p: "w' = w1\<lparr>pickles := (pickles w1)(''data/text.pkl'' \<mapsto> final)\<rparr>" and
    n: "length vs = length df"
    by (rule run_Inr)
  have "map type final = map type df"
    using merged_columns [of df vs] n f by simp
  moreover have "pickles w' ''data/text.pkl'' = Some final"
    using p by simp
  ultimately show ?thesis using l by blast
qed

text \<open>
  C7 (the assembler). For any four lists of lines the assembled frame is the lines of the
  first file, then of the second, the third and the fourth, each line tagged with the
  label of its file: nothing is reordered, dropped or merged. The same holds for
  \<^verbatim>\<open>pd.concat\<close> of the frames of any non-empty list of labelled documents. And
  when a run ends with a dataset, the \<^verbatim>\<open>type\<close> column of the dataset is the
  \<^verbatim>\<open>type\<close> column of the assembled frame, and the pickled file holds this dataset.
\<close>

theorem assembler_correct:
  "df_combined goats_lines gravity_lines blackholes_lines invasivegoats_lines =
     Inr (map (\<lambda>l. \<lparr>type = Val ''goats'', text = Val l\<rparr>) goats_lines
          @ map (\<lambda>l. \<lparr>type = Val ''gravity'', text = Val l\<rparr>) gravity_lines
          @ map (\<lambda>l. \<lparr>type = Val ''blackholes'', text = Val l\<rparr>) blackholes_lines
          @ map (\<lambda>l. \<lparr>type = Val ''invasivegoats'', text = Val l\<rparr>) invasivegoats_lines)
   \<and> (docs \<noteq> [] \<longrightarrow>
        pd_concat (map (\<lambda>(label, lines). DataFrame label lines) docs) =
          Inr (concat (map (\<lambda>(label, lines). map (\<lambda>l. \<lparr>type = Val label, text = Val l\<rparr>) lines) docs)))
   \<and> (run fs dotenv env svc w = Some (Inr final, w') \<longrightarrow>
        (\<exists>df. load_text fs = Inr df \<and> map type final = map type df
           \<and> pickles w' ''data/text.pkl'' = Some final))"
proof (intro conjI impI)
  show "df_combined goats_lines gravity_lines blackholes_lines invasivegoats_lines =
     Inr (map (\<lambda>l. \<lparr>type = Val ''goats'', text = Val l\<rparr>) goats_lines
          @ map (\<lambda>l. \<lparr>type = Val ''gravity'', text = Val l\<rparr>) gravity_lines
          @ map (\<lambda>l. \<lparr>type = Val ''blackholes'', text = Val l\<rparr>) blackholes_lines
          @ map (\<lambda>l. \<lparr>type = Val ''invasivegoats'', text = Val l\<rparr>) invasivegoats_lines)"
    by (simp add: df_combined_eq DataFrame_def)
next
  assume "docs \<noteq> []"
  then have "pd_concat (map (\<lambda>(label, lines). DataFrame label lines) docs) =
      Inr (concat (map (\<lambda>(label, lines). DataFrame label lines) docs))"
    by (simp add: pd_concat_nonempty)
  moreover have "(\<lambda>(label, lines). DataFrame label lines) =
      (\<lambda>(label, lines). map (\<lambda>l. \<lparr>type = Val label, text = Val l\<rparr>) lines)"
    by (simp add: DataFrame_def fun_eq_iff)
  ultimately show "pd_concat (map (\<lambda>(label, lines). DataFrame label lines) docs) =
          Inr (concat (map (\<lambda>(label, lines). map (\<lambda>l. \<lparr>type = Val label, text = Val l\<rparr>) lines) docs))"
    by simp
next
  assume "run fs dotenv env svc w = Some (Inr final, w')"
  then show "\<exists>df. load_text fs = Inr df \<and> map type final = map type df
           \<and> pickles w' ''data/text.pkl'' = Some final"
    by (rule run_labels)
qed

theorem assembler_correct_witness:
  "df_combined [''a'', ''b''] [] [''c''] [''a''] =
     Inr [\<lparr>type = Val ''goats'', text = Val ''a''\<rparr>, \<lparr>type = Val ''goats'', text = Val ''b''\<rparr>,
          \<lparr>type = Val ''blackholes'', text = Val ''c''\<rparr>,
          \<lparr>type = Val ''invasivegoats'', text = Val ''a''\<rparr>]
   \<and> [(''x'', [''a'', ''a'']), (''y'', [''a''])] \<noteq> []
   \<and> pd_concat (map (\<lambda>(label, lines). DataFrame label lines) [(''x'', [''a'', ''a'']), (''y'', [''a''])]) =
       Inr [\<lparr>type = Val ''x'', text = Val ''a''\<rparr>, \<lparr>type = Val ''x'', text = Val ''a''\<rparr>,
            \<lparr>type = Val ''y'', text = Val ''a''\<rparr>]
   \<and> run example_files example_dotenv Map.empty scripted (fresh_world example_script) =
       Some (Inr example_dataset, example_world)
   \<and> load_text example_files = Inr example_frame
   \<and> map type example_dataset = map type example_frame
   \<and> pickles example_world ''data/text.pkl'' = Some example_dataset"
  using assembler_correct [of "[''a'', ''b'']" "[]" "[''c'']" "[''a'']"
      "[(''x'', [''a'', ''a'']), (''y'', [''a''])]"
      example_files example_dotenv Map.empty scripted "fresh_world example_script"
      example_dataset example_world]
    example_run example_load
  by simp











lemma check_config_fails:
  assumes "\<not> fst (load_dotenv dotenv env) \<or> snd (load_dotenv dotenv env) ''OPENAI_API_KEY'' = None"
  shows "check_config dotenv env =
     Inl (if \<not> fst (load_dotenv dotenv env) then Exception ''Couldn't load .env file''
          else EnvironmentError [''OPENAI_API_KEY''])"
  using assms
  by (cases "load_dotenv dotenv env") (auto simp: check_config_def missing_vars_def envVars_def)

text \<open>
  C6 (no configuration, no request). When \<open>load_dotenv\<close> reports failure, or when the
  environment after it has no \<^verbatim>\<open>OPENAI_API_KEY\<close>, the run ends with an exception
  and the world is the one it started with: no request was sent, nothing was printed or
  slept, nothing was pickled. If the four files could be read, the exception is the one
  of the configuration check. Started in a fresh world, the run ends in that fresh world,
  whose log counts zero service calls.
\<close>

theorem fatal_on_missing_config:
  assumes "\<not> fst (load_dotenv dotenv env) \<or> snd (load_dotenv dotenv env) ''OPENAI_API_KEY'' = None"
  shows "(\<exists>e. run fs dotenv env svc (w :: ('s, 'v) world) = Some (Inl e, w))
       \<and> (load_text fs = Inr df \<longrightarrow>
            run fs dotenv env svc w =
              Some (Inl (if \<not> fst (load_dotenv dotenv env) then Exception ''Couldn't load .env file''
                         else EnvironmentError [''OPENAI_API_KEY'']), w))
       \<and> (\<exists>e. run fs dotenv env svc (fresh_world s) = Some (Inl e, fresh_world s)
             \<and> service_calls (events (fresh_world s :: ('s, 'v) world)) = 0)"
proof -
  note c = check_config_fails [OF assms]
  have 1: "\<exists>e. run fs dotenv env svc w = Some (Inl e, w)" for w :: "('s, 'v) world"
    by (cases "load_text fs") (simp_all add: run_def c)
  have 2: "load_text fs = Inr df \<longrightarrow>
            run fs dotenv env svc w =
              Some (Inl (if \<not> fst (load_dotenv dotenv env) then Exception ''Couldn't load .env file''
                         else EnvironmentError [''OPENAI_API_KEY'']), w)"
    by (simp add: run_def c)
  have 3: "service_calls (events (fresh_world s :: ('s, 'v) world)) = 0"
    by (simp add: fresh_world_def service_calls_def)
  from 1 [of w] 1 [of "fresh_world s"] 2 3 show ?thesis by blast
qed

theorem fatal_on_missing_config_witness:
  "snd (load_dotenv [(''OTHER_KEY'', Some ''x'')] Map.empty) ''OPENAI_API_KEY'' = None
   \<and> load_text example_files = Inr example_frame
   \<and> run example_files [(''OTHER_KEY'', Some ''x'')] Map.empty scripted (fresh_world example_script) =
       Some (Inl (EnvironmentError [''OPENAI_API_KEY'']), fresh_world example_script)
   \<and> service_calls (events (fresh_world example_script :: (nat outcome list, nat) world)) = 0
   \<and> \<not> fst (load_dotenv [] [''OPENAI_API_KEY'' \<mapsto> ''sk-test''])
   \<and> run example_files [] [''OPENAI_API_KEY'' \<mapsto> ''sk-test''] scripted (fresh_world example_script) =
       Some (Inl (Exception ''Couldn't load .env file''), fresh_world example_script)"
proof -
  have h1: "\<not> fst (load_dotenv [(''OTHER_KEY'', Some ''x'')] Map.empty)
      \<or> snd (load_dotenv [(''OTHER_KEY'', Some ''x'')] Map.empty) ''OPENAI_API_KEY'' = None"
    by (simp add: load_dotenv_def)
  have h2: "\<not> fst (load_dotenv [] [''OPENAI_API_KEY'' \<mapsto> ''sk-test''])
      \<or> snd (load_dotenv [] [''OPENAI_API_KEY'' \<mapsto> ''sk-test'']) ''OPENAI_API_KEY'' = None"
    by (simp add: load_dotenv_def)
  show ?thesis
    using fatal_on_missing_config [OF h1, where fs = example_files and df = example_frame
        and svc = scripted and w = "fresh_world example_script" and s = example_script]
      fatal_on_missing_config [OF h2, where fs = example_files and df = example_frame
        and svc = scripted and w = "fresh_world example_script" and s = example_script]
      example_load
    by (simp add: load_dotenv_def)
qed

lemma set_openaiEmbeddings_mismatch:
  "df \<noteq> [] \<Longrightarrow> length vs \<noteq> length df \<Longrightarrow>
   set_openaiEmbeddings df vs = Inl (ValueError_length_mismatch (length vs) (length df))"
  by (simp add: set_openaiEmbeddings_def)

lemma set_openaiEmbeddings_empty_frame:
  "vs \<noteq> [] \<Longrightarrow>
   set_openaiEmbeddings [] vs = Inr (map (\<lambda>v. \<lparr>type = NaN, text = NaN, openaiEmbeddings = v\<rparr>) vs)"
  by (simp add: set_openaiEmbeddings_def)

text \<open>
  C5, as the specification states it, fails: a frame without rows accepts a list of one
  vector. The assignment succeeds with a one-row frame whose \<^verbatim>\<open>type\<close> and
  \<^verbatim>\<open>text\<close> are missing, and this frame is pickled.
\<close>

theorem structural_error_counterexample:
  "length ([] :: frame) \<noteq> length [11 :: nat]
   \<and> merge_and_save [''data'' \<mapsto> Directory] [] [11 :: nat] (fresh_world ()) =
       (Inr [\<lparr>type = NaN, text = NaN, openaiEmbeddings = 11\<rparr>],
        \<lparr>service_state = (), events = [],
         pickles = [''data/text.pkl'' \<mapsto> [\<lparr>type = NaN, text = NaN, openaiEmbeddings = 11\<rparr>]]\<rparr>)"
  by (simp add: merge_and_save_def set_openaiEmbeddings_def to_pickle_def dirname_def
      fresh_world_def)

text \<open>
  C5, amended. For a frame with at least one row and a list of another length the column
  assignment raises \<^verbatim>\<open>ValueError\<close>, and the rest of the notebook leaves the
  world as it was: nothing is pickled, nothing is cut or filled. For a frame without rows
  and a non-empty list the assignment succeeds: the frame gets one row per vector, with
  \<^verbatim>\<open>type\<close> and \<^verbatim>\<open>text\<close> missing, and cell 4 then pickles it, which
  succeeds when the output file can be written. (In a run of the notebook the two lengths
  never differ, by C2.)
\<close>

theorem structural_error_nonempty:
  "(df \<noteq> [] \<and> length vs \<noteq> length df \<longrightarrow>
      set_openaiEmbeddings df vs = Inl (ValueError_length_mismatch (length vs) (length df))
    \<and> merge_and_save fs df vs w = (Inl (ValueError_length_mismatch (length vs) (length df)), w))
   \<and> (vs \<noteq> [] \<longrightarrow>
      set_openaiEmbeddings [] vs =
        Inr (map (\<lambda>v. \<lparr>type = NaN, text = NaN, openaiEmbeddings = v\<rparr>) vs)
    \<and> merge_and_save fs [] vs w =
        (case to_pickle fs ''data/text.pkl''
                (map (\<lambda>v. \<lparr>type = NaN, text = NaN, openaiEmbeddings = v\<rparr>) vs) w of
           Inl e \<Rightarrow> (Inl e, w)
         | Inr w' \<Rightarrow> (Inr (map (\<lambda>v. \<lparr>type = NaN, text = NaN, openaiEmbeddings = v\<rparr>) vs), w'))
    \<and> (writable fs ''data/text.pkl'' \<longrightarrow>
        merge_and_save fs [] vs w =
          (Inr (map (\<lambda>v. \<lparr>type = NaN, text = NaN, openaiEmbeddings = v\<rparr>) vs),
           w\<lparr>pickles := (pickles w)(''data/text.pkl'' \<mapsto>
                map (\<lambda>v. \<lparr>type = NaN, text = NaN, openaiEmbeddings = v\<rparr>) vs)\<rparr>)))"
  by (simp add: merge_and_save_def set_openaiEmbeddings_mismatch set_openaiEmbeddings_empty_frame
      to_pickle_writable)

theorem structural_error_nonempty_witness:
  "example_frame \<noteq> [] \<and> length [11, 12 :: nat] \<noteq> length example_frame
   \<and> set_openaiEmbeddings example_frame [11, 12 :: nat] = Inl (ValueError_length_mismatch 2 4)
   \<and> merge_and_save example_files example_frame [11, 12 :: nat] (fresh_world ()) =
       (Inl (ValueError_length_mismatch 2 4), fresh_world ())
   \<and> merge_and_save example_files example_frame ([] :: nat list) (fresh_world ()) =
       (Inl (ValueError_length_mismatch 0 4), fresh_world ())
   \<and> [11, 12 :: nat] \<noteq> []
   \<and> writable example_files ''data/text.pkl''
   \<and> merge_and_save example_files [] [11, 12 :: nat] (fresh_world ()) =
       (Inr [\<lparr>type = NaN, text = NaN, openaiEmbeddings = 11\<rparr>,
             \<lparr>type = NaN, text = NaN, openaiEmbeddings = 12\<rparr>],
        \<lparr>service_state = (), events = [],
         pickles = [''data/text.pkl'' \<mapsto>
           [\<lparr>type = NaN, text = NaN, openaiEmbeddings = 11\<rparr>,
            \<lparr>type = NaN, text = NaN, openaiEmbeddings = 12\<rparr>]]\<rparr>)"
  using structural_error_nonempty [of example_frame "[11, 12 :: nat]" example_files "fresh_world ()"]
    structural_error_nonempty [of example_frame "[] :: nat list" example_files "fresh_world ()"]
    example_writable
  by (simp add: example_frame_def fresh_world_def to_pickle_writable [OF example_writable])

end
